theory Spec2Isabelle
  imports Complex_Main
begin

section \<open>Numbers and truthiness\<close>

text \<open>
  Every TypeScript \<open>number\<close> of the program (timestamps in milliseconds, the polling
  interval and the grant lifetime in seconds) is a rational here: the arithmetic the
  program does on them (\<open>+\<close>, \<open>*\<close>, \<open>Math.min\<close>, \<open><\<close>) is exact on the values that
  occur, and \<open>NaN\<close> and the infinities are not representable. An optional property is
  an \<open>option\<close>; \<open>None\<close> is \<open>undefined\<close>.
\<close>

type_synonym number = rat

text \<open>\<open>!token\<close> and \<open>if (token && ...)\<close>: \<open>undefined\<close> and the empty string are falsy.\<close>

definition truthy_string :: "string option \<Rightarrow> bool" where
  "truthy_string s = (case s of None \<Rightarrow> False | Some t \<Rightarrow> t \<noteq> [])"

text \<open>\<open>expiresAt && typeof expiresAt === 'number'\<close>: \<open>undefined\<close> and \<open>0\<close> are falsy.\<close>

definition truthy_number :: "number option \<Rightarrow> bool" where
  "truthy_number n = (case n of None \<Rightarrow> False | Some x \<Rightarrow> x \<noteq> 0)"

section \<open>The persisted configuration (config.ts)\<close>

record user_info =
  user_id :: string
  email :: string
  user_name :: "string option"

record active_project =
  project_id :: string
  project_name :: string

record auth_record =
  token :: string
  expiresAt :: "number option"
  user :: "user_info option"

text \<open>
  \<open>interface CliConfig\<close>. The functions below are written on the extensible record, so
  that whatever else the store holds beside \<open>activeProject\<close> and \<open>auth\<close> is the
  \<open>more\<close> part of the record.
\<close>

record CliConfig =
  activeProject :: "active_project option"
  auth :: "auth_record option"

definition emptyConfig :: CliConfig where
  "emptyConfig = \<lparr>activeProject = None, auth = None\<rparr>"

definition getActiveProject :: "'a CliConfig_scheme \<Rightarrow> active_project option" where
  "getActiveProject c = activeProject c"

definition setActiveProject :: "string \<Rightarrow> string \<Rightarrow> 'a CliConfig_scheme \<Rightarrow> 'a CliConfig_scheme" where
  "setActiveProject i n c = c\<lparr>activeProject := Some \<lparr>project_id = i, project_name = n\<rparr>\<rparr>"

definition clearActiveProject :: "'a CliConfig_scheme \<Rightarrow> 'a CliConfig_scheme" where
  "clearActiveProject c = c\<lparr>activeProject := None\<rparr>"

text \<open>\<open>config.get('auth.token')\<close>: \<open>undefined\<close> when there is no \<open>auth\<close> record.\<close>

definition getAuthToken :: "'a CliConfig_scheme \<Rightarrow> string option" where
  "getAuthToken c = map_option token (auth c)"

text \<open>\<open>config.get('auth.expiresAt')\<close>.\<close>

definition getExpiresAt :: "'a CliConfig_scheme \<Rightarrow> number option" where
  "getExpiresAt c = (case auth c of None \<Rightarrow> None | Some a \<Rightarrow> expiresAt a)"

definition getAuthUser :: "'a CliConfig_scheme \<Rightarrow> user_info option" where
  "getAuthUser c = (case auth c of None \<Rightarrow> None | Some a \<Rightarrow> user a)"

text \<open>
  \<open>setAuthToken(token, user)\<close>: one \<open>config.set('auth', {...})\<close> that replaces the whole
  record. The first argument is the value of \<open>Date.now()\<close> at the call.
\<close>

definition setAuthToken ::
  "number \<Rightarrow> string \<Rightarrow> user_info option \<Rightarrow> 'a CliConfig_scheme \<Rightarrow> 'a CliConfig_scheme" where
  "setAuthToken now tok u c =
     c\<lparr>auth := Some \<lparr>token = tok, expiresAt = Some (now + 24 * 60 * 60 * 1000), user = u\<rparr>\<rparr>"

text \<open>\<open>clearAuthToken()\<close>: \<open>config.delete('auth')\<close>.\<close>

definition clearAuthToken :: "'a CliConfig_scheme \<Rightarrow> 'a CliConfig_scheme" where
  "clearAuthToken c = c\<lparr>auth := None\<rparr>"

definition isAuthenticated :: "number \<Rightarrow> 'a CliConfig_scheme \<Rightarrow> bool" where
  "isAuthenticated now c =
     (let tok = getAuthToken c in
      if \<not> truthy_string tok then False
      else
        let e = getExpiresAt c in
        if truthy_number e \<and> the e < now + 5 * 60 * 1000 then False
        else True)"

definition needsTokenRefresh :: "number \<Rightarrow> 'a CliConfig_scheme \<Rightarrow> bool" where
  "needsTokenRefresh now c =
     (let tok = getAuthToken c in
      if \<not> truthy_string tok then False
      else
        let e = getExpiresAt c in
        if truthy_number e \<and> the e < now + 60 * 60 * 1000 then True
        else False)"

definition getApiUrl :: string where
  "getApiUrl = ''https://localhost:3000/api''"

text \<open>
  The store states the exported operations of config.ts can produce, starting from an
  empty store.
\<close>

inductive reachable :: "CliConfig \<Rightarrow> bool" where
  r_empty: "reachable emptyConfig"
| r_setAuthToken: "reachable c \<Longrightarrow> reachable (setAuthToken now tok u c)"
| r_clearAuthToken: "reachable c \<Longrightarrow> reachable (clearAuthToken c)"
| r_setActiveProject: "reachable c \<Longrightarrow> reachable (setActiveProject i n c)"
| r_clearActiveProject: "reachable c \<Longrightarrow> reachable (clearActiveProject c)"

text \<open>Token and expiry are both stored or both absent.\<close>

definition sessionInv :: "'a CliConfig_scheme \<Rightarrow> bool" where
  "sessionInv c = ((getAuthToken c = None) = (getExpiresAt c = None))"

section \<open>Effects and the world the program runs in\<close>

text \<open>
  What the callbacks of the HTTP client, the clipboard and the browser launcher can
  throw. \<open>AxiosError\<close> carries the fields \<open>handleApiError\<close> and \<open>pollForToken\<close> read:
  \<open>error.response\<close> (status, status text, \<open>data.error\<close>, the entries of \<open>data.errors\<close>),
  whether \<open>error.request\<close> is set, and \<open>error.message\<close>. \<open>PlainError\<close> is any other
  \<open>Error\<close> object with its message, \<open>Undefined\<close> the value \<open>undefined\<close>, and
  \<open>TypeError\<close> what a property read on \<open>undefined\<close> raises.
\<close>

record response_data =
  data_error :: "string option"
  data_errors :: "(string \<times> string) list option"

record http_response =
  status :: nat
  statusText :: string
  data :: "response_data option"

datatype thrown =
    AxiosError "http_response option" bool string
  | PlainError string
  | Undefined
  | TypeError string

datatype 'a settled = Resolved 'a | Rejected thrown

datatype 'a outcome = Returned 'a | Threw thrown

datatype level = Success | Failure | Warning | Info | Heading

text \<open>
  The observable effects, in the order they happen. \<open>Console l m\<close> is \<open>output.success\<close>,
  \<open>output.error\<close>, \<open>output.warning\<close>, \<open>output.info\<close> or \<open>output.heading\<close> printing
  \<open>m\<close> (the coloured glyph in front is left out); \<open>ConsoleError e\<close> is
  \<open>console.error(error)\<close>; \<open>Stdout\<close> is \<open>process.stdout.write\<close>; \<open>SetTimeout d\<close> is a
  \<open>setTimeout\<close> with delay argument \<open>d\<close> (milliseconds).
\<close>

datatype effect =
    Console level string
  | ConsoleError thrown
  | Stdout string
  | SetTimeout number
  | HttpGet string
  | HttpPost string
  | ClipboardWrite string
  | OpenBrowser string
  | SetInterval nat
  | ClearInterval nat

text \<open>
  \<open>now\<close> is what \<open>Date.now()\<close> returns, \<open>config\<close> the persisted store, \<open>trace\<close> the effects
  so far (oldest first), \<open>timers\<close> the handles of the repeating timers that are
  scheduled, \<open>nextTimer\<close> the next handle \<open>setInterval\<close> gives out.
\<close>

record world =
  now :: number
  config :: CliConfig
  trace :: "effect list"
  timers :: "nat list"
  nextTimer :: nat

definition emit :: "effect list \<Rightarrow> world \<Rightarrow> world" where
  "emit es w = w\<lparr>trace := trace w @ es\<rparr>"

definition say :: "level \<Rightarrow> string \<Rightarrow> world \<Rightarrow> world" where
  "say l m w = emit [Console l m] w"

definition elapse :: "number \<Rightarrow> world \<Rightarrow> world" where
  "elapse d w = w\<lparr>now := now w + d\<rparr>"

text \<open>
  Node's \<open>setTimeout(f, d)\<close>: a delay below 1 or above \<open>2^31 - 1\<close> is set to 1, and a
  fractional delay is truncated.
\<close>

definition timerDelay :: "number \<Rightarrow> number" where
  "timerDelay d = (if d < 1 \<or> 2147483647 < d then 1 else of_int \<lfloor>d\<rfloor>)"

text \<open>\<open>await new Promise((resolve) => setTimeout(resolve, d))\<close>.\<close>

definition sleep :: "number \<Rightarrow> world \<Rightarrow> world" where
  "sleep d w = elapse (timerDelay d) (emit [SetTimeout d] w)"

text \<open>
  \<open>setInterval\<close> schedules a repeating timer and returns its handle; \<open>clearInterval\<close>
  cancels it. What the progress callback prints each second is not modelled, only
  whether it is scheduled.
\<close>

definition setInterval :: "world \<Rightarrow> nat \<times> world" where
  "setInterval w =
     (nextTimer w,
      w\<lparr>trace := trace w @ [SetInterval (nextTimer w)],
        timers := nextTimer w # timers w,
        nextTimer := Suc (nextTimer w)\<rparr>)"

definition clearInterval :: "nat \<Rightarrow> world \<Rightarrow> world" where
  "clearInterval t w = w\<lparr>trace := trace w @ [ClearInterval t], timers := removeAll t (timers w)\<rparr>"

section \<open>String helpers\<close>

fun startsWith :: "string \<Rightarrow> string \<Rightarrow> bool" where
  "startsWith s [] = True"
| "startsWith [] (p # ps) = False"
| "startsWith (c # cs) (p # ps) = (c = p \<and> startsWith cs ps)"

text \<open>\<open>s.includes(p)\<close>.\<close>

fun includes_str :: "string \<Rightarrow> string \<Rightarrow> bool" where
  "includes_str [] p = (p = [])"
| "includes_str (c # cs) p = (startsWith (c # cs) p \<or> includes_str cs p)"

text \<open>Decimal digits of a number inside a template string.\<close>

fun showNat :: "nat \<Rightarrow> string" where
  "showNat n =
     (if n < 10 then [''0123456789'' ! n]
      else showNat (n div 10) @ [''0123456789'' ! (n mod 10)])"

declare showNat.simps [simp del]

text \<open>\<open>output.truncate(str, maxLength)\<close>.\<close>

definition truncateStr :: "string \<Rightarrow> nat \<Rightarrow> string" where
  "truncateStr str maxLength =
     (if length str \<le> maxLength then str else take (maxLength - 3) str @ ''...'')"

section \<open>The API client (utils/api.ts)\<close>

definition login_endpoint :: string where
  "login_endpoint = ''/auth/cli-login-initiate''"

definition token_endpoint :: "string \<Rightarrow> string" where
  "token_endpoint deviceCode = ''/auth/cli-token?code='' @ deviceCode"

text \<open>\<open>data?.error\<close> as a condition.\<close>

definition dataErrorOf :: "http_response \<Rightarrow> string option" where
  "dataErrorOf r = (case data r of None \<Rightarrow> None | Some d \<Rightarrow> data_error d)"

definition detailsOf :: "string \<Rightarrow> http_response \<Rightarrow> effect list" where
  "detailsOf prefix r =
     (if truthy_string (dataErrorOf r) then [Console Info (prefix @ the (dataErrorOf r))] else [])"

text \<open>The \<open>switch (status)\<close> of \<open>handleApiError\<close>.\<close>

definition statusMessages :: "http_response \<Rightarrow> effect list" where
  "statusMessages r =
     (if status r = 400 then
        Console Failure ''Bad Request: The request was invalid.'' # detailsOf ''Details: '' r
      else if status r = 401 then
        [Console Failure ''Authentication required.'',
         Console Info ''Please run 'todo auth login' to authenticate.'']
      else if status r = 403 then
        [Console Failure ''Access denied. You don't have permission for this action.'']
      else if status r = 404 then
        [Console Failure ''Resource not found.'']
      else if status r = 422 then
        Console Failure ''Validation error:'' #
        (case (case data r of None \<Rightarrow> None | Some d \<Rightarrow> data_errors d) of
           Some es \<Rightarrow> map (\<lambda>(field, m). Console Info (''  - '' @ field @ '': '' @ m)) es
         | None \<Rightarrow> detailsOf ''  - '' r)
      else if status r = 429 then
        [Console Failure ''Too many requests. Please try again later.'']
      else if status r \<in> {500, 502, 503, 504} then
        [Console Failure ''Server error. Please try again later.'']
      else
        Console Failure (''API Error: '' @ showNat (status r) @ '' - '' @ statusText r) #
        detailsOf ''Details: '' r)"

text \<open>
  \<open>handleApiError(error)\<close>, as the list of lines it prints. The last branch is
  \<open>error?.message || error\<close> inside a template string.
\<close>

fun handleApiError :: "thrown \<Rightarrow> effect list" where
  "handleApiError (AxiosError (Some r) req msg) = statusMessages r"
| "handleApiError (AxiosError None req msg) =
     (if req then
        [Console Failure ''Network Error: No response received from server'',
         Console Info ''Please check your internet connection.'',
         Console Info (''Current API URL: '' @ getApiUrl)]
      else [Console Failure (''Error: '' @ msg)])"
| "handleApiError (PlainError msg) =
     [Console Failure (''Unexpected error: '' @ (if msg = [] then ''Error'' else msg))]"
| "handleApiError (TypeError msg) =
     [Console Failure (''Unexpected error: '' @ (if msg = [] then ''TypeError'' else msg))]"
| "handleApiError Undefined = [Console Failure ''Unexpected error: undefined'']"

text \<open>\<open>error.message\<close> of a caught error object.\<close>

fun messageOf :: "thrown \<Rightarrow> string" where
  "messageOf (AxiosError r req msg) = msg"
| "messageOf (PlainError msg) = msg"
| "messageOf (TypeError msg) = msg"
| "messageOf Undefined = []"

section \<open>The device login flow (utils/auth.ts)\<close>

record AuthResponse =
  resp_token :: string
  resp_user :: "user_info option"

record DeviceCodeResponse =
  device_code :: string
  user_code :: string
  verification_uri :: string
  expires_in :: number
  interval :: number

text \<open>
  What the outside does during one login attempt. A poll event is the answer to one
  \<open>GET /auth/cli-token\<close>: \<open>lag\<close> is the time in milliseconds between the end of the
  sleep and the answer, \<open>reply\<close> the body the promise resolves to (\<open>None\<close> for an empty
  body, an empty \<open>resp_token\<close> for a body without token) or what it rejects with. The
  events are consumed one per request; \<open>None\<close> as the result of a function below means
  that the list ended while the program was still polling.
\<close>

record poll_event =
  lag :: nat
  reply :: "AuthResponse option settled"

record env =
  grantLag :: nat
  grantReply :: "DeviceCodeResponse settled"
  clipboardFails :: bool
  openFails :: "thrown option"
  polls :: "poll_event list"

definition maxInterval :: number where
  "maxInterval = 30"

definition backoffFactor :: number where
  "backoffFactor = 3 / 2"

text \<open>\<open>Math.min(interval * backoffFactor, maxInterval)\<close>.\<close>

definition backoff :: "number \<Rightarrow> number" where
  "backoff i = min (i * backoffFactor) maxInterval"

text \<open>
  The test of the inner \<open>catch\<close>: \<open>error.response && error.response.status === 400 &&
  error.response.data && error.response.data.error === 'authorization_pending'\<close>.
\<close>

fun isPending :: "thrown \<Rightarrow> bool" where
  "isPending (AxiosError (Some r) req msg) =
     (status r = 400 \<and>
      (case data r of None \<Rightarrow> False | Some d \<Rightarrow> data_error d = Some ''authorization_pending''))"
| "isPending (AxiosError None req msg) = False"
| "isPending (PlainError msg) = False"
| "isPending (TypeError msg) = False"
| "isPending Undefined = False"

definition blankLine :: string where
  "blankLine = CHR 0x0D # replicate 50 (CHR '' '') @ [CHR 0x0D]"

text \<open>\<open>if (progressInterval) { clearInterval(progressInterval); process.stdout.write(...) }\<close>.\<close>

definition clearProgress :: "nat option \<Rightarrow> world \<Rightarrow> world" where
  "clearProgress prog w =
     (case prog of None \<Rightarrow> w | Some p \<Rightarrow> emit [Stdout blankLine] (clearInterval p w))"

text \<open>\<open>setAuthToken(response.token, response.user)\<close> at the current time.\<close>

definition storeToken :: "AuthResponse \<Rightarrow> world \<Rightarrow> world" where
  "storeToken r w = w\<lparr>config := setAuthToken (now w) (resp_token r) (resp_user r) (config w)\<rparr>"

text \<open>What follows the \<open>while\<close> loop of \<open>pollForToken\<close>.\<close>

definition afterLoop :: "bool \<Rightarrow> nat option \<Rightarrow> world \<Rightarrow> bool outcome \<times> world" where
  "afterLoop silent prog w =
     (let w1 = clearProgress prog w;
          w2 = (if \<not> silent then say Warning ''Authentication timed out. Please try again.'' w1
                else w1)
      in (Returned False, w2))"

text \<open>
  The \<open>while (Date.now() < expiresAt)\<close> loop with the two \<open>try\<close> blocks around it. The
  arguments after the events are the loop variables \<open>interval\<close>, \<open>attempts\<close> and
  \<open>progressInterval\<close>. \<open>get\<close> calls \<open>handleApiError\<close> before it rethrows. Reading
  \<open>error.response\<close> of \<open>undefined\<close> in the inner \<open>catch\<close> raises a TypeError, which the
  outer \<open>catch\<close> rethrows after clearing the progress indicator.
\<close>

fun pollLoop ::
  "string \<Rightarrow> bool \<Rightarrow> number \<Rightarrow> poll_event list \<Rightarrow> number \<Rightarrow> nat \<Rightarrow> nat option \<Rightarrow> world
   \<Rightarrow> (bool outcome \<times> world) option" where
  "pollLoop dc silent expAt [] i attempts prog w =
     (if now w < expAt then None else Some (afterLoop silent prog w))"
| "pollLoop dc silent expAt (ev # evs) i attempts prog w =
     (if now w < expAt then
        let w1 = sleep (i * 1000) w;
            w2 = elapse (of_nat (lag ev)) (emit [HttpGet (token_endpoint dc)] w1)
        in case reply ev of
             Resolved response \<Rightarrow>
               if truthy_string (map_option resp_token response) then
                 Some (Returned True, storeToken (the response) (clearProgress prog w2))
               else pollLoop dc silent expAt evs i (attempts + 1) prog w2
           | Rejected error \<Rightarrow>
               let w3 = emit (handleApiError error) w2 in
               if error = Undefined then
                 Some (Threw (TypeError ''Cannot read properties of undefined (reading 'response')''),
                       clearProgress prog w3)
               else if isPending error then
                 pollLoop dc silent expAt evs (backoff i) (attempts + 1) prog w3
               else if \<not> silent then
                 let w4 = clearProgress prog w3;
                     w5 = say Warning (''Error polling for token (attempt '' @
                            showNat (attempts + 1) @ ''): '' @ messageOf error) w4;
                     w6 = say Info ''Retrying...'' w5
                 in case setInterval w6 of
                      (p, w7) \<Rightarrow> pollLoop dc silent expAt evs i (attempts + 1) (Some p) w7
               else pollLoop dc silent expAt evs i (attempts + 1) prog w3
      else Some (afterLoop silent prog w))"

definition pollForToken ::
  "string \<Rightarrow> number \<Rightarrow> number \<Rightarrow> bool \<Rightarrow> poll_event list \<Rightarrow> world
   \<Rightarrow> (bool outcome \<times> world) option" where
  "pollForToken deviceCode initialInterval expiresIn silent evs w =
     (let startTime = now w;
          expAt = startTime + expiresIn * 1000
      in if \<not> silent then
           (case setInterval w of
              (p, w1) \<Rightarrow> pollLoop deviceCode silent expAt evs initialInterval 0 (Some p) w1)
         else pollLoop deviceCode silent expAt evs initialInterval 0 None w)"

text \<open>Step 2 and 3 of \<open>initiateLogin\<close>: what is shown, the clipboard, the browser.\<close>

definition announce :: "env \<Rightarrow> DeviceCodeResponse \<Rightarrow> world \<Rightarrow> unit outcome \<times> world" where
  "announce e d w =
     (let w1 = emit [Console Heading ''Authentication Required'',
                     Console Info ''To authenticate, please follow these steps:'',
                     Console Info (''1. Open this URL in your browser: '' @
                       truncateStr (verification_uri d) 50),
                     ClipboardWrite (user_code d)] w;
          w2 = (if clipboardFails e then say Info (''2. Enter this code: '' @ user_code d) w1
                else say Info (''2. Enter this code: '' @ user_code d @
                       '' (copied to clipboard)'') w1);
          w3 = emit [OpenBrowser (verification_uri d)] w2
      in case openFails e of
           Some err \<Rightarrow> (Threw err, w3)
         | None \<Rightarrow> (Returned (), say Info ''Waiting for authentication to complete...'' w3))"

text \<open>The \<open>catch\<close> of \<open>initiateLogin\<close>: it rethrows whether silent or not.\<close>

definition loginCatch :: "bool \<Rightarrow> thrown \<Rightarrow> world \<Rightarrow> unit outcome \<times> world" where
  "loginCatch silent err w =
     (Threw err,
      if \<not> silent then
        emit [Console Failure ''Failed to initiate login process.'', ConsoleError err] w
      else w)"

definition loggedInAs :: "user_info \<Rightarrow> string" where
  "loggedInAs u =
     ''Logged in as '' @ email u @
     (if truthy_string (user_name u) then '' ('' @ the (user_name u) @ '')'' else [])"

text \<open>Step 5 of \<open>initiateLogin\<close>.\<close>

definition report :: "bool \<Rightarrow> bool \<Rightarrow> world \<Rightarrow> world" where
  "report silent tok w =
     (if tok then
        (if \<not> silent then
           (let w1 = say Success ''Authentication successful!'' w
            in case getAuthUser (config w1) of
                 Some u \<Rightarrow> say Info (loggedInAs u) w1
               | None \<Rightarrow> w1)
         else w)
      else
        (if \<not> silent then say Failure ''Authentication failed or timed out.'' w else w))"

text \<open>
  \<open>initiateLogin(silent)\<close>. It is declared \<open>Promise<void>\<close>: a run that does not throw
  returns no value. \<open>post\<close> calls \<open>handleApiError\<close> before it rethrows.
\<close>

definition initiateLogin :: "bool \<Rightarrow> env \<Rightarrow> world \<Rightarrow> (unit outcome \<times> world) option" where
  "initiateLogin silent e w =
     (let w1 = (if \<not> silent then say Info ''Initiating login process...'' w else w);
          w2 = elapse (of_nat (grantLag e)) (emit [HttpPost login_endpoint] w1)
      in case grantReply e of
           Rejected err \<Rightarrow> Some (loginCatch silent err (emit (handleApiError err) w2))
         | Resolved d \<Rightarrow>
             (case (if \<not> silent then announce e d w2 else (Returned (), w2)) of
                (Threw err, w3) \<Rightarrow> Some (loginCatch silent err w3)
              | (Returned u, w3) \<Rightarrow>
                  (case pollForToken (device_code d) (interval d) (expires_in d) silent
                          (polls e) w3 of
                     None \<Rightarrow> None
                   | Some (Threw err, w4) \<Rightarrow> Some (loginCatch silent err w4)
                   | Some (Returned tok, w4) \<Rightarrow> Some (Returned (), report silent tok w4))))"

definition logout :: "world \<Rightarrow> world" where
  "logout w = say Success ''Successfully logged out.'' (w\<lparr>config := clearAuthToken (config w)\<rparr>)"

definition checkStatus :: "world \<Rightarrow> world" where
  "checkStatus w =
     (if isAuthenticated (now w) (config w) then
        (case getAuthUser (config w) of
           Some u \<Rightarrow> say Success (loggedInAs u) w
         | None \<Rightarrow> say Success ''Logged in'' w)
      else say Info ''Not logged in. Run 'todo auth login' to authenticate.'' w)"

definition requireAuth :: "world \<Rightarrow> bool \<times> world" where
  "requireAuth w =
     (if \<not> isAuthenticated (now w) (config w) then
        (False, emit [Console Failure ''Authentication required.'',
                      Console Info ''Please run 'todo auth login' to authenticate.''] w)
      else (True, w))"

section \<open>The request interceptor (utils/api.ts)\<close>

record request =
  url :: "string option"
  headers :: "(string \<rightharpoonup> string) option"

text \<open>
  The function given to \<open>api.interceptors.request.use\<close>. The refresh is the call
  \<open>auth.initiateLogin()\<close>, with no argument, so \<open>silent\<close> takes its default \<open>false\<close>.
  The requests \<open>initiateLogin\<close> makes go to \<open>/auth/\<close> URLs, for which this function only
  sets the header; that inner pass is left out.
\<close>

definition requestInterceptor :: "env \<Rightarrow> request \<Rightarrow> world \<Rightarrow> (request \<times> world) option" where
  "requestInterceptor e req w =
     (let isAuthEndpoint = (case url req of None \<Rightarrow> False | Some u \<Rightarrow> includes_str u ''/auth/'');
          refreshed =
            (if \<not> isAuthEndpoint \<and> needsTokenRefresh (now w) (config w)
                \<and> isAuthenticated (now w) (config w) then
               (case initiateLogin False e
                       (say Info ''Your session is about to expire. Refreshing authentication...'' w) of
                  None \<Rightarrow> None
                | Some (Threw err, w1) \<Rightarrow>
                    Some (say Warning ''Failed to refresh authentication. Please login again.'' w1)
                | Some (Returned u, w1) \<Rightarrow> Some w1)
             else Some w)
      in case refreshed of
           None \<Rightarrow> None
         | Some w2 \<Rightarrow>
             (let w3 = (if \<not> isAuthEndpoint \<and> \<not> isAuthenticated (now w2) (config w2) then
                          emit [Console Failure ''Authentication required.'',
                                Console Info ''Please run 'todo auth login' to authenticate.''] w2
                        else w2);
                  tok = getAuthToken (config w3)
              in if truthy_string tok \<and> headers req \<noteq> None then
                   Some (req\<lparr>headers := Some ((the (headers req))(''Authorization'' \<mapsto> ''Bearer '' @ the tok))\<rparr>, w3)
                 else Some (req, w3)))"

section \<open>Reading a run\<close>

text \<open>The delays passed to \<open>setTimeout\<close>, and the URLs requested, in a trace.\<close>

fun delays :: "effect list \<Rightarrow> number list" where
  "delays [] = []"
| "delays (SetTimeout d # es) = d # delays es"
| "delays (e # es) = delays es"

fun requests :: "effect list \<Rightarrow> string list" where
  "requests [] = []"
| "requests (HttpGet u # es) = u # requests es"
| "requests (HttpPost u # es) = u # requests es"
| "requests (e # es) = requests es"

text \<open>A poll event that brings a token, and one that is the pending answer.\<close>

definition isSuccess :: "poll_event \<Rightarrow> bool" where
  "isSuccess ev =
     (case reply ev of
        Resolved r \<Rightarrow> truthy_string (map_option resp_token r)
      | Rejected err \<Rightarrow> False)"

definition isPendingEv :: "poll_event \<Rightarrow> bool" where
  "isPendingEv ev = (case reply ev of Resolved r \<Rightarrow> False | Rejected err \<Rightarrow> isPending err)"

text \<open>
  What a run of \<open>pollForToken\<close> or \<open>initiateLogin\<close> leaves behind: its outcome, the
  stored token and the delays it slept.
\<close>

definition summary ::
  "('a outcome \<times> world) option \<Rightarrow> ('a outcome \<times> string option \<times> number list) option" where
  "summary res = map_option (\<lambda>(r, w'). (r, getAuthToken (config w'), delays (trace w'))) res"

text \<open>The \<open>Authorization\<close> header a request leaves the interceptor with, and the trace.\<close>

definition sentWith :: "(request \<times> world) option \<Rightarrow> (string option \<times> effect list) option" where
  "sentWith res =
     map_option
       (\<lambda>(r, w'). (case headers r of None \<Rightarrow> None | Some h \<Rightarrow> h ''Authorization'', trace w'))
       res"

text \<open>The sleeps and the requests of a trace, in the order they happen.\<close>

fun schedule :: "effect list \<Rightarrow> effect list" where
  "schedule [] = []"
| "schedule (SetTimeout d # es) = SetTimeout d # schedule es"
| "schedule (HttpGet u # es) = HttpGet u # schedule es"
| "schedule (HttpPost u # es) = HttpPost u # schedule es"
| "schedule (e # es) = schedule es"



section \<open>Concrete stores, worlds and events\<close>


definition cfgLoggedIn :: CliConfig where
  "cfgLoggedIn = setAuthToken 1700000000000 ''tok'' None emptyConfig"

definition pendingError :: thrown where
  "pendingError =
     AxiosError
       (Some \<lparr>status = 400, statusText = ''Bad Request'',
              data = Some \<lparr>data_error = Some ''authorization_pending'', data_errors = None\<rparr>\<rparr>)
       True ''Request failed with status code 400''"

definition serverError :: thrown where
  "serverError =
     AxiosError (Some \<lparr>status = 500, statusText = ''Internal Server Error'', data = None\<rparr>)
       True ''Request failed with status code 500''"

definition pendingEvent :: poll_event where
  "pendingEvent = \<lparr>lag = 0, reply = Rejected pendingError\<rparr>"

definition errorEvent :: poll_event where
  "errorEvent = \<lparr>lag = 0, reply = Rejected serverError\<rparr>"

definition undefinedEvent :: poll_event where
  "undefinedEvent = \<lparr>lag = 0, reply = Rejected Undefined\<rparr>"

definition tokenEvent :: "string \<Rightarrow> poll_event" where
  "tokenEvent t = \<lparr>lag = 0, reply = Resolved (Some \<lparr>resp_token = t, resp_user = None\<rparr>)\<rparr>"

definition world0 :: world where
  "world0 = \<lparr>now = 1700000000000, config = emptyConfig, trace = [], timers = [], nextTimer = 0\<rparr>"

definition networkError :: thrown where
  "networkError = AxiosError None True ''Network Error''"

definition grantUsual :: DeviceCodeResponse where
  "grantUsual =
     \<lparr>device_code = ''dc'', user_code = ''ABCD-1234'',
      verification_uri = ''https://todofordevs.com/cli-auth'', expires_in = 900, interval = 5\<rparr>"

definition grantShort :: DeviceCodeResponse where
  "grantShort = grantUsual\<lparr>expires_in := 10, interval := 15\<rparr>"

definition envSuccess :: env where
  "envSuccess =
     \<lparr>grantLag = 0, grantReply = Resolved grantUsual, clipboardFails = False, openFails = None,
      polls = [pendingEvent, tokenEvent ''T'']\<rparr>"

definition envTimeout :: env where
  "envTimeout = envSuccess\<lparr>grantReply := Resolved grantShort, polls := [pendingEvent]\<rparr>"

definition envGrantFails :: env where
  "envGrantFails = envSuccess\<lparr>grantReply := Rejected networkError, polls := []\<rparr>"

definition cfgExpiring :: CliConfig where
  "cfgExpiring =
     \<lparr>activeProject = None,
      auth = Some \<lparr>token = ''old'', expiresAt = Some (1700000000000 + 30 * 60 * 1000),
                  user = None\<rparr>\<rparr>"

definition worldExpiring :: world where
  "worldExpiring = world0\<lparr>config := cfgExpiring\<rparr>"

definition envRefresh :: env where
  "envRefresh = envSuccess\<lparr>polls := [tokenEvent ''new'']\<rparr>"

definition reqProjects :: request where
  "reqProjects = \<lparr>url = Some ''/projects'', headers = Some Map.empty\<rparr>"

section \<open>Auxiliary notions for the proofs\<close>

text \<open>
  The progress timer held in \<open>progressInterval\<close> is the one scheduled timer the polling
  routine owns: \<open>T\<close> are the timers scheduled before the routine started.
\<close>

definition progressOK :: "nat option \<Rightarrow> nat list \<Rightarrow> world \<Rightarrow> bool" where
  "progressOK prog T w =
     ((case prog of None \<Rightarrow> timers w = T | Some p \<Rightarrow> timers w = p # T \<and> p \<notin> set T)
      \<and> (\<forall>t\<in>set T. t < nextTimer w))"

text \<open>
  The loop of \<open>pollForToken\<close> as the specification words it: a poll event that is
  neither a token nor an \<open>undefined\<close> rejection keeps the loop going; only the pending
  answer changes the interval (\<open>nextInterval\<close>); \<open>waits\<close> are the delays passed to
  \<open>setTimeout\<close> before each request, \<open>elapsed\<close> the time the requests take in all, and
  \<open>expectedWarnings\<close> the warnings an interactive run prints, one for each error that
  is not the pending answer, with its attempt number.
\<close>

definition keepsPolling :: "poll_event \<Rightarrow> bool" where
  "keepsPolling ev = (\<not> isSuccess ev \<and> reply ev \<noteq> Rejected Undefined)"

definition nextInterval :: "number \<Rightarrow> poll_event \<Rightarrow> number" where
  "nextInterval i ev = (if isPendingEv ev then backoff i else i)"

fun waits :: "number \<Rightarrow> poll_event list \<Rightarrow> number list" where
  "waits i [] = []"
| "waits i (ev # evs) = i * 1000 # waits (nextInterval i ev) evs"

fun elapsed :: "number \<Rightarrow> poll_event list \<Rightarrow> number" where
  "elapsed i [] = 0"
| "elapsed i (ev # evs) =
     timerDelay (i * 1000) + of_nat (lag ev) + elapsed (nextInterval i ev) evs"

definition pollWarning :: "nat \<Rightarrow> thrown \<Rightarrow> string" where
  "pollWarning attempt err =
     ''Error polling for token (attempt '' @ showNat attempt @ ''): '' @ messageOf err"

fun expectedWarnings :: "nat \<Rightarrow> poll_event list \<Rightarrow> string list" where
  "expectedWarnings n [] = []"
| "expectedWarnings n (ev # evs) =
     (case reply ev of
        Resolved r \<Rightarrow> []
      | Rejected err \<Rightarrow> if isPending err then [] else [pollWarning (n + 1) err])
     @ expectedWarnings (n + 1) evs"

text \<open>The texts of the warnings in a trace.\<close>

fun warnings :: "effect list \<Rightarrow> string list" where
  "warnings [] = []"
| "warnings (Console Warning m # es) = m # warnings es"
| "warnings (e # es) = warnings es"

text \<open>One pass through the loop body that ends in another pass: the new \<open>progressInterval\<close> and world.\<close>

definition pollStep ::
  "string \<Rightarrow> bool \<Rightarrow> poll_event \<Rightarrow> number \<Rightarrow> nat \<Rightarrow> nat option \<Rightarrow> world \<Rightarrow> nat option \<times> world" where
  "pollStep dc silent ev i attempts prog w =
     (let w2 = elapse (of_nat (lag ev))
                 (emit [HttpGet (token_endpoint dc)] (sleep (i * 1000) w))
      in case reply ev of
           Resolved response \<Rightarrow> (prog, w2)
         | Rejected error \<Rightarrow>
             let w3 = emit (handleApiError error) w2 in
             if isPending error \<or> silent then (prog, w3)
             else
               let w6 = say Info ''Retrying...''
                          (say Warning (pollWarning (attempts + 1) error) (clearProgress prog w3))
               in (Some (fst (setInterval w6)), snd (setInterval w6)))"



text \<open>The world in which \<open>initiateLogin\<close> starts to poll, when the grant request succeeded.\<close>

definition beforePolling :: "bool \<Rightarrow> env \<Rightarrow> DeviceCodeResponse \<Rightarrow> world \<Rightarrow> world" where
  "beforePolling silent e d w =
     (let w2 = elapse (of_nat (grantLag e))
                 (emit [HttpPost login_endpoint]
                    (if \<not> silent then say Info ''Initiating login process...'' w else w))
      in if \<not> silent then snd (announce e d w2) else w2)"

section \<open>Fields of the world after each primitive step\<close>

lemma emit_fields [simp]:
  "now (emit es w) = now w" "config (emit es w) = config w" "trace (emit es w) = trace w @ es"
  "timers (emit es w) = timers w" "nextTimer (emit es w) = nextTimer w"
  by (simp_all add: emit_def)

lemma say_fields [simp]:
  "now (say l m w) = now w" "config (say l m w) = config w"
  "trace (say l m w) = trace w @ [Console l m]"
  "timers (say l m w) = timers w" "nextTimer (say l m w) = nextTimer w"
  by (simp_all add: say_def)

lemma elapse_fields [simp]:
  "now (elapse d w) = now w + d" "config (elapse d w) = config w" "trace (elapse d w) = trace w"
  "timers (elapse d w) = timers w" "nextTimer (elapse d w) = nextTimer w"
  by (simp_all add: elapse_def)

lemma sleep_fields [simp]:
  "now (sleep d w) = now w + timerDelay d" "config (sleep d w) = config w"
  "trace (sleep d w) = trace w @ [SetTimeout d]"
  "timers (sleep d w) = timers w" "nextTimer (sleep d w) = nextTimer w"
  by (simp_all add: sleep_def)

lemma clearInterval_fields [simp]:
  "now (clearInterval t w) = now w" "config (clearInterval t w) = config w"
  "trace (clearInterval t w) = trace w @ [ClearInterval t]"
  "timers (clearInterval t w) = removeAll t (timers w)"
  "nextTimer (clearInterval t w) = nextTimer w"
  by (simp_all add: clearInterval_def)

lemma setInterval_fields [simp]:
  "fst (setInterval w) = nextTimer w"
  "now (snd (setInterval w)) = now w" "config (snd (setInterval w)) = config w"
  "trace (snd (setInterval w)) = trace w @ [SetInterval (nextTimer w)]"
  "timers (snd (setInterval w)) = nextTimer w # timers w"
  "nextTimer (snd (setInterval w)) = Suc (nextTimer w)"
  by (simp_all add: setInterval_def)

lemma clearProgress_fields [simp]:
  "now (clearProgress prog w) = now w" "config (clearProgress prog w) = config w"
  "nextTimer (clearProgress prog w) = nextTimer w"
  "timers (clearProgress prog w) = (case prog of None \<Rightarrow> timers w | Some p \<Rightarrow> removeAll p (timers w))"
  "trace (clearProgress prog w) =
     trace w @ (case prog of None \<Rightarrow> [] | Some p \<Rightarrow> [ClearInterval p, Stdout blankLine])"
  by (simp_all add: clearProgress_def split: option.splits)

lemma storeToken_fields [simp]:
  "now (storeToken r w) = now w"
  "config (storeToken r w) = setAuthToken (now w) (resp_token r) (resp_user r) (config w)"
  "trace (storeToken r w) = trace w" "timers (storeToken r w) = timers w"
  "nextTimer (storeToken r w) = nextTimer w"
  by (simp_all add: storeToken_def)

lemma timerDelay_ge1: "1 \<le> timerDelay d"
  by (simp add: timerDelay_def)

lemma progressOK_step:
  "progressOK prog T w \<Longrightarrow> timers w2 = timers w \<Longrightarrow> nextTimer w2 = nextTimer w \<Longrightarrow> progressOK prog T w2"
  by (simp add: progressOK_def cong: option.case_cong)

lemma afterLoop_timers:
  "progressOK prog T w \<Longrightarrow> afterLoop silent prog w = (r, w') \<Longrightarrow> timers w' = T \<and> nextTimer w' = nextTimer w"
  by (auto simp: afterLoop_def progressOK_def Let_def split: option.splits if_splits)

lemma pollLoop_timers:
  "pollLoop dc silent expAt evs i n prog w = Some (r, w') \<Longrightarrow> progressOK prog T w
   \<Longrightarrow> timers w' = T \<and> nextTimer w \<le> nextTimer w'"
proof (induction evs arbitrary: i n prog w)
  case Nil
  then show ?case by (auto split: if_splits dest: afterLoop_timers)
next
  case (Cons ev evs)
  show ?case
  proof (cases "now w < expAt")
    case False
    with Cons.prems show ?thesis by (auto dest: afterLoop_timers)
  next
    case True
    let ?w2 = "elapse (of_nat (lag ev)) (emit [HttpGet (token_endpoint dc)] (sleep (i * 1000) w))"
    have ok2: "progressOK prog T ?w2" by (rule progressOK_step[OF Cons.prems(2)]) simp_all
    show ?thesis
    proof (cases "reply ev")
      case (Resolved response)
      show ?thesis
      proof (cases "truthy_string (map_option resp_token response)")
        case t: True
        with True Resolved Cons.prems show ?thesis
          by (auto simp: progressOK_def Let_def split: option.splits)
      next
        case f: False
        with True Resolved Cons.prems(1) have
          "pollLoop dc silent expAt evs i (n + 1) prog ?w2 = Some (r, w')"
          by (simp add: Let_def)
        from Cons.IH[OF this ok2] show ?thesis by simp
      qed
    next
      case (Rejected err)
      let ?w3 = "emit (handleApiError err) ?w2"
      have ok3: "progressOK prog T ?w3" by (rule progressOK_step[OF ok2]) simp_all
      consider (u) "err = Undefined" | (p) "err \<noteq> Undefined" "isPending err"
        | (s) "err \<noteq> Undefined" "\<not> isPending err" "silent"
        | (v) "err \<noteq> Undefined" "\<not> isPending err" "\<not> silent" by blast
      then show ?thesis
      proof cases
        case u
        with True Rejected Cons.prems show ?thesis
          by (auto simp: progressOK_def Let_def split: option.splits)
      next
        case p
        with True Rejected Cons.prems(1) have
          "pollLoop dc silent expAt evs (backoff i) (n + 1) prog ?w3 = Some (r, w')"
          by (simp add: Let_def)
        from Cons.IH[OF this ok3] show ?thesis by simp
      next
        case s
        with True Rejected Cons.prems(1) have
          "pollLoop dc silent expAt evs i (n + 1) prog ?w3 = Some (r, w')"
          by (simp add: Let_def)
        from Cons.IH[OF this ok3] show ?thesis by simp
      next
        case v
        let ?w6 = "say Info ''Retrying...'' (say Warning (''Error polling for token (attempt '' @
                            showNat (n + 1) @ ''): '' @ messageOf err) (clearProgress prog ?w3))"
        from v True Rejected Cons.prems(1) have
          run: "pollLoop dc silent expAt evs i (n + 1) (Some (fst (setInterval ?w6))) (snd (setInterval ?w6)) = Some (r, w')"
          by (simp add: Let_def split_def)
        have "progressOK (Some (fst (setInterval ?w6))) T (snd (setInterval ?w6))"
          using ok3 by (auto simp: progressOK_def split: option.splits)
        from Cons.IH[OF run this] show ?thesis by simp
      qed
    qed
  qed
qed

section \<open>The polling loop, one pass at a time\<close>

lemma delays_append [simp]: "delays (xs @ ys) = delays xs @ delays ys"
  by (induction xs rule: delays.induct) simp_all

lemma requests_append [simp]: "requests (xs @ ys) = requests xs @ requests ys"
  by (induction xs rule: requests.induct) simp_all

lemma warnings_append [simp]: "warnings (xs @ ys) = warnings xs @ warnings ys"
  by (induction xs rule: warnings.induct) simp_all

lemma detailsOf_quiet [simp]:
  "delays (detailsOf p r) = []" "requests (detailsOf p r) = []" "warnings (detailsOf p r) = []"
  by (simp_all add: detailsOf_def)

lemma map_info_quiet [simp]:
  "delays (map (\<lambda>(field, m). Console Info (f field m)) es) = []"
  "requests (map (\<lambda>(field, m). Console Info (f field m)) es) = []"
  "warnings (map (\<lambda>(field, m). Console Info (f field m)) es) = []"
  by (induction es) (simp_all add: split_def)

lemma statusMessages_quiet [simp]:
  "delays (statusMessages r) = []" "requests (statusMessages r) = []"
  "warnings (statusMessages r) = []"
  by (simp_all add: statusMessages_def split: option.splits)

lemma handleApiError_quiet [simp]:
  "delays (handleApiError err) = []" "requests (handleApiError err) = []"
  "warnings (handleApiError err) = []"
  by (cases err rule: handleApiError.cases; simp)+

lemma elapsed_nonneg: "0 \<le> elapsed i evs"
proof (induction evs arbitrary: i)
  case Nil
  show ?case by simp
next
  case (Cons ev evs)
  have "0 \<le> timerDelay (i * 1000)" using timerDelay_ge1 [of "i * 1000"] by linarith
  with Cons [of "nextInterval i ev"] show ?case by simp
qed

lemma pollLoop_expired:
  "\<not> now w < expAt \<Longrightarrow> pollLoop dc silent expAt evs i n prog w = Some (afterLoop silent prog w)"
  by (cases evs) simp_all

lemma pollLoop_success:
  "now w < expAt \<Longrightarrow> reply ev = Resolved (Some r) \<Longrightarrow> resp_token r \<noteq> [] \<Longrightarrow>
   pollLoop dc silent expAt (ev # evs) i n prog w =
     Some (Returned True,
       storeToken r (clearProgress prog
         (elapse (of_nat (lag ev)) (emit [HttpGet (token_endpoint dc)] (sleep (i * 1000) w)))))"
  by (simp add: Let_def truthy_string_def)

lemma pollLoop_undefined:
  "now w < expAt \<Longrightarrow> reply ev = Rejected Undefined \<Longrightarrow>
   \<exists>m w'. pollLoop dc silent expAt (ev # evs) i n prog w = Some (Threw (TypeError m), w') \<and>
      config w' = config w"
  by (simp add: Let_def)

lemma pollLoop_continue:
  "now w < expAt \<Longrightarrow> keepsPolling ev \<Longrightarrow>
   pollLoop dc silent expAt (ev # evs) i n prog w =
     pollLoop dc silent expAt evs (nextInterval i ev) (n + 1)
       (fst (pollStep dc silent ev i n prog w)) (snd (pollStep dc silent ev i n prog w))"
  by (cases "reply ev")
     (auto simp: keepsPolling_def isSuccess_def nextInterval_def isPendingEv_def pollStep_def
        pollWarning_def Let_def split_def)

declare pollLoop.simps [simp del]

lemma pollStep_fields [simp]:
  "now (snd (pollStep dc silent ev i n prog w)) = now w + timerDelay (i * 1000) + of_nat (lag ev)"
  "config (snd (pollStep dc silent ev i n prog w)) = config w"
  "delays (trace (snd (pollStep dc silent ev i n prog w))) = delays (trace w) @ [i * 1000]"
  "requests (trace (snd (pollStep dc silent ev i n prog w))) =
     requests (trace w) @ [token_endpoint dc]"
  by (simp_all add: pollStep_def Let_def split: settled.splits option.splits)

lemma pollStep_warnings:
  "warnings (trace (snd (pollStep dc silent ev i n prog w))) =
     warnings (trace w) @ (if silent then [] else expectedWarnings n [ev])"
  by (simp add: pollStep_def Let_def split: settled.splits option.splits)

lemma isSuccessD:
  "isSuccess ev \<Longrightarrow> \<exists>r. reply ev = Resolved (Some r) \<and> resp_token r \<noteq> []"
  by (auto simp: isSuccess_def truthy_string_def split: settled.splits option.splits)

lemma not_keepsPolling:
  "\<not> keepsPolling ev \<Longrightarrow> isSuccess ev \<or> reply ev = Rejected Undefined"
  by (auto simp: keepsPolling_def)

lemma pollLoop_total:
  "expAt - now w \<le> of_nat (length evs) \<Longrightarrow> \<exists>r. pollLoop dc silent expAt evs i n prog w = Some r"
proof (induction evs arbitrary: i n prog w)
  case Nil
  then have "\<not> now w < expAt" by simp
  then show ?case by (simp add: pollLoop_expired)
next
  case (Cons ev evs)
  show ?case
  proof (cases "now w < expAt")
    case False
    then show ?thesis by (simp add: pollLoop_expired)
  next
    case True
    show ?thesis
    proof (cases "keepsPolling ev")
      case k: True
      let ?w = "snd (pollStep dc silent ev i n prog w)"
      have "1 \<le> timerDelay (i * 1000)" by (rule timerDelay_ge1)
      with Cons.prems have "expAt - now ?w \<le> of_nat (length evs)" by simp
      from Cons.IH [OF this] show ?thesis by (simp add: pollLoop_continue [OF True k])
    next
      case False
      then consider (s) "isSuccess ev" | (u) "reply ev = Rejected Undefined"
        using not_keepsPolling by blast
      then show ?thesis
      proof cases
        case s
        then obtain r where "reply ev = Resolved (Some r)" "resp_token r \<noteq> []"
          using isSuccessD by blast
        then show ?thesis using pollLoop_success [OF True] by simp
      next
        case u
        from pollLoop_undefined [OF True u] show ?thesis by blast
      qed
    qed
  qed
qed

lemma pollLoop_config:
  "pollLoop dc silent expAt evs i n prog w = Some (r, w') \<Longrightarrow> r \<noteq> Returned True
   \<Longrightarrow> config w' = config w"
proof (induction evs arbitrary: i n prog w)
  case Nil
  then show ?case by (auto simp: pollLoop.simps afterLoop_def Let_def split: if_splits)
next
  case (Cons ev evs)
  show ?case
  proof (cases "now w < expAt")
    case False
    with Cons.prems show ?thesis by (auto simp: pollLoop_expired afterLoop_def Let_def)
  next
    case True
    show ?thesis
    proof (cases "keepsPolling ev")
      case k: True
      from Cons.prems(1) have
        "pollLoop dc silent expAt evs (nextInterval i ev) (n + 1)
           (fst (pollStep dc silent ev i n prog w)) (snd (pollStep dc silent ev i n prog w))
         = Some (r, w')"
        by (simp add: pollLoop_continue [OF True k])
      from Cons.IH [OF this Cons.prems(2)] show ?thesis by simp
    next
      case False
      then consider (s) "isSuccess ev" | (u) "reply ev = Rejected Undefined"
        using not_keepsPolling by blast
      then show ?thesis
      proof cases
        case s
        then obtain a where "reply ev = Resolved (Some a)" "resp_token a \<noteq> []"
          using isSuccessD by blast
        with Cons.prems show ?thesis using pollLoop_success [OF True] by simp
      next
        case u
        from pollLoop_undefined [OF True u, of dc silent evs i n prog] Cons.prems(1)
        show ?thesis by auto
      qed
    qed
  qed
qed

lemma pollLoop_returns:
  "pollLoop dc silent expAt evs i n prog w = Some (r, w') \<Longrightarrow>
   \<forall>ev\<in>set evs. reply ev \<noteq> Rejected Undefined \<Longrightarrow> \<exists>b. r = Returned b"
proof (induction evs arbitrary: i n prog w)
  case Nil
  then show ?case by (auto simp: pollLoop.simps afterLoop_def Let_def split: if_splits)
next
  case (Cons ev evs)
  show ?case
  proof (cases "now w < expAt")
    case False
    with Cons.prems show ?thesis by (auto simp: pollLoop_expired afterLoop_def Let_def)
  next
    case True
    show ?thesis
    proof (cases "keepsPolling ev")
      case k: True
      from Cons.prems(1) have
        "pollLoop dc silent expAt evs (nextInterval i ev) (n + 1)
           (fst (pollStep dc silent ev i n prog w)) (snd (pollStep dc silent ev i n prog w))
         = Some (r, w')"
        by (simp add: pollLoop_continue [OF True k])
      from Cons.IH [OF this] Cons.prems(2) show ?thesis by simp
    next
      case False
      with Cons.prems(2) have "isSuccess ev" using not_keepsPolling by auto
      then obtain a where a: "reply ev = Resolved (Some a)" "resp_token a \<noteq> []"
        using isSuccessD by blast
      from Cons.prems(1) have "r = Returned True"
        by (simp add: pollLoop_success [OF True a])
      then show ?thesis by blast
    qed
  qed
qed

lemma pollLoop_no_success:
  "pollLoop dc silent expAt evs i n prog w = Some (r, w') \<Longrightarrow>
   \<forall>ev\<in>set evs. \<not> isSuccess ev \<Longrightarrow> r \<noteq> Returned True"
proof (induction evs arbitrary: i n prog w)
  case Nil
  then show ?case by (auto simp: pollLoop.simps afterLoop_def Let_def split: if_splits)
next
  case (Cons ev evs)
  show ?case
  proof (cases "now w < expAt")
    case False
    with Cons.prems show ?thesis by (auto simp: pollLoop_expired afterLoop_def Let_def)
  next
    case True
    show ?thesis
    proof (cases "keepsPolling ev")
      case k: True
      from Cons.prems(1) have
        "pollLoop dc silent expAt evs (nextInterval i ev) (n + 1)
           (fst (pollStep dc silent ev i n prog w)) (snd (pollStep dc silent ev i n prog w))
         = Some (r, w')"
        by (simp add: pollLoop_continue [OF True k])
      from Cons.IH [OF this] Cons.prems(2) show ?thesis by simp
    next
      case False
      with Cons.prems(2) have u: "reply ev = Rejected Undefined" using not_keepsPolling by auto
      from pollLoop_undefined [OF True u, of dc silent evs i n prog] Cons.prems(1)
      show ?thesis by auto
    qed
  qed
qed

lemma pollLoop_until_success:
  assumes "\<forall>ev\<in>set pre. keepsPolling ev"
    and "now w + elapsed i pre < expAt"
    and "tok \<noteq> []"
    and "ok = \<lparr>lag = l, reply = Resolved (Some \<lparr>resp_token = tok, resp_user = u\<rparr>)\<rparr>"
  shows "\<exists>w'. pollLoop dc silent expAt (pre @ ok # rest) i n prog w = Some (Returned True, w')
     \<and> config w' = setAuthToken (now w') tok u (config w)
     \<and> now w' = now w + elapsed i (pre @ [ok])
     \<and> delays (trace w') = delays (trace w) @ waits i (pre @ [ok])
     \<and> warnings (trace w') = warnings (trace w) @ (if silent then [] else expectedWarnings n pre)"
  using assms(1,2)
proof (induction pre arbitrary: i n prog w)
  case Nil
  then have lt: "now w < expAt" by simp
  have r: "reply ok = Resolved (Some \<lparr>resp_token = tok, resp_user = u\<rparr>)"
    by (simp add: assms(4))
  show ?case
    using assms(3) by (simp add: pollLoop_success [OF lt r] split: option.splits)
next
  case (Cons ev pre)
  have k: "keepsPolling ev" using Cons.prems(1) by simp
  have "0 \<le> elapsed (nextInterval i ev) pre" by (rule elapsed_nonneg)
  moreover have "1 \<le> timerDelay (i * 1000)" by (rule timerDelay_ge1)
  ultimately have lt: "now w < expAt" using Cons.prems(2) by simp
  let ?p = "fst (pollStep dc silent ev i n prog w)"
  let ?w = "snd (pollStep dc silent ev i n prog w)"
  have a: "\<forall>ev\<in>set pre. keepsPolling ev" using Cons.prems(1) by simp
  have b: "now ?w + elapsed (nextInterval i ev) pre < expAt"
    using Cons.prems(2) by (simp add: add.assoc)
  from Cons.IH [OF a b, of "n + 1" ?p]
  obtain w' where
    run: "pollLoop dc silent expAt (pre @ ok # rest) (nextInterval i ev) (n + 1) ?p ?w
            = Some (Returned True, w')"
    and c: "config w' = setAuthToken (now w') tok u (config ?w)"
    and t: "now w' = now ?w + elapsed (nextInterval i ev) (pre @ [ok])"
    and d: "delays (trace w') = delays (trace ?w) @ waits (nextInterval i ev) (pre @ [ok])"
    and wn: "warnings (trace w') =
              warnings (trace ?w) @ (if silent then [] else expectedWarnings (n + 1) pre)"
    by blast
  have "pollLoop dc silent expAt ((ev # pre) @ ok # rest) i n prog w = Some (Returned True, w')"
    using run by (simp add: pollLoop_continue [OF lt k])
  moreover have "config w' = setAuthToken (now w') tok u (config w)" using c by simp
  moreover have "now w' = now w + elapsed i ((ev # pre) @ [ok])" using t by (simp add: add.assoc)
  moreover have "delays (trace w') = delays (trace w) @ waits i ((ev # pre) @ [ok])"
    using d by simp
  moreover have "warnings (trace w') =
      warnings (trace w) @ (if silent then [] else expectedWarnings n (ev # pre))"
    using wn by (simp add: pollStep_warnings)
  ultimately show ?case by blast
qed

section \<open>The polling routine\<close>

lemma pollForToken_as_loop:
  "pollForToken dc i x silent evs w =
     pollLoop dc silent (now w + x * 1000) evs i 0
       (if silent then None else Some (nextTimer w))
       (if silent then w else snd (setInterval w))"
  by (simp add: pollForToken_def Let_def split_def)

lemma progressOK_start:
  "\<forall>t\<in>set (timers w). t < nextTimer w \<Longrightarrow>
   progressOK (if silent then None else Some (nextTimer w)) (timers w)
     (if silent then w else snd (setInterval w))"
  by (auto simp: progressOK_def)

lemma isPendingEv_keepsPolling: "isPendingEv ev \<Longrightarrow> keepsPolling ev"
  by (auto simp: isPendingEv_def keepsPolling_def isSuccess_def split: settled.splits)

lemma isPendingEv_expectedWarnings:
  "\<forall>ev\<in>set evs. isPendingEv ev \<Longrightarrow> expectedWarnings n evs = []"
  by (induction evs arbitrary: n) (auto simp: isPendingEv_def split: settled.splits)


lemma afterLoop_fields:
  "fst (afterLoop silent prog w) = Returned False"
  "config (snd (afterLoop silent prog w)) = config w"
  "delays (trace (snd (afterLoop silent prog w))) = delays (trace w)"
  "requests (trace (snd (afterLoop silent prog w))) = requests (trace w)"
  by (simp_all add: afterLoop_def Let_def split: option.splits)

lemma pollForToken_window_too_short:
  assumes "evs \<noteq> []" and "\<forall>ev\<in>set evs. isPendingEv ev"
  shows "\<exists>w'. pollForToken dc 15 10 silent evs w = Some (Returned False, w') \<and>
           config w' = config w \<and>
           delays (trace w') = delays (trace w) @ [15 * 1000] \<and>
           requests (trace w') = requests (trace w) @ [token_endpoint dc]"
proof -
  from assms(1) obtain ev rest where evs: "evs = ev # rest" by (cases evs) auto
  with assms(2) have k: "keepsPolling ev" by (simp add: isPendingEv_keepsPolling)
  let ?prog = "if silent then None else Some (nextTimer w)"
  let ?w1 = "if silent then w else snd (setInterval w)"
  let ?p2 = "fst (pollStep dc silent ev 15 0 ?prog ?w1)"
  let ?w2 = "snd (pollStep dc silent ev 15 0 ?prog ?w1)"
  have lt: "now ?w1 < now w + 10 * 1000" by simp
  have "timerDelay (15 * 1000) = 15 * 1000" by (simp add: timerDelay_def)
  then have ge: "\<not> now ?w2 < now w + 10 * 1000" by simp
  have "pollForToken dc 15 10 silent evs w = Some (afterLoop silent ?p2 ?w2)"
    unfolding pollForToken_as_loop evs
    by (simp only: pollLoop_continue [OF lt k] pollLoop_expired [OF ge])
  moreover have "config (snd (afterLoop silent ?p2 ?w2)) = config w"
    by (simp add: afterLoop_fields)
  moreover have "delays (trace (snd (afterLoop silent ?p2 ?w2))) = delays (trace w) @ [15 * 1000]"
    by (simp add: afterLoop_fields)
  moreover have "requests (trace (snd (afterLoop silent ?p2 ?w2)))
      = requests (trace w) @ [token_endpoint dc]"
    by (simp add: afterLoop_fields)
  ultimately show ?thesis
    using afterLoop_fields(1) [of silent ?p2 ?w2]
    by (cases "afterLoop silent ?p2 ?w2") auto
qed

lemmas run_defs =
  pendingEvent_def errorEvent_def undefinedEvent_def tokenEvent_def world0_def
  pendingError_def serverError_def timerDelay_def backoff_def backoffFactor_def
  maxInterval_def nextInterval_def isPendingEv_def isSuccess_def keepsPolling_def
  truthy_string_def

lemma pollLoop_total_elapsed:
  "expAt - now w \<le> elapsed i evs \<Longrightarrow> \<exists>r. pollLoop dc silent expAt evs i n prog w = Some r"
proof (induction evs arbitrary: i n prog w)
  case Nil
  then have "\<not> now w < expAt" by simp
  then show ?case by (simp add: pollLoop_expired)
next
  case (Cons ev evs)
  show ?case
  proof (cases "now w < expAt")
    case False
    then show ?thesis by (simp add: pollLoop_expired)
  next
    case True
    show ?thesis
    proof (cases "keepsPolling ev")
      case k: True
      let ?w = "snd (pollStep dc silent ev i n prog w)"
      from Cons.prems have "expAt - now ?w \<le> elapsed (nextInterval i ev) evs" by simp
      from Cons.IH [OF this] show ?thesis by (simp add: pollLoop_continue [OF True k])
    next
      case False
      then consider (s) "isSuccess ev" | (u) "reply ev = Rejected Undefined"
        using not_keepsPolling by blast
      then show ?thesis
      proof cases
        case s
        then obtain r where "reply ev = Resolved (Some r)" "resp_token r \<noteq> []"
          using isSuccessD by blast
        then show ?thesis using pollLoop_success [OF True] by simp
      next
        case u
        from pollLoop_undefined [OF True u] show ?thesis by blast
      qed
    qed
  qed
qed

lemma announce_fields:
  "fst (announce e d w) = (case openFails e of Some err \<Rightarrow> Threw err | None \<Rightarrow> Returned ())"
  "now (snd (announce e d w)) = now w"
  "config (snd (announce e d w)) = config w"
  "delays (trace (snd (announce e d w))) = delays (trace w)"
  "requests (trace (snd (announce e d w))) = requests (trace w)"
  by (simp_all add: announce_def Let_def split: option.splits)

lemma beforePolling_fields [simp]:
  "now (beforePolling silent e d w) = now w + of_nat (grantLag e)"
  "config (beforePolling silent e d w) = config w"
  "delays (trace (beforePolling silent e d w)) = delays (trace w)"
  "requests (trace (beforePolling silent e d w)) = requests (trace w) @ [login_endpoint]"
  by (simp_all add: beforePolling_def Let_def announce_fields)

lemma report_fields [simp]:
  "now (report silent b w) = now w"
  "config (report silent b w) = config w"
  "delays (trace (report silent b w)) = delays (trace w)"
  "requests (trace (report silent b w)) = requests (trace w)"
  by (simp_all add: report_def Let_def split: option.splits)

lemma report_failure:
  "\<not> silent \<Longrightarrow> last (trace (report silent False w)) = Console Failure ''Authentication failed or timed out.''"
  by (simp add: report_def)

lemma initiateLogin_polls:
  assumes "grantReply e = Resolved d" and "silent \<or> openFails e = None"
  shows "initiateLogin silent e w =
     (case pollForToken (device_code d) (interval d) (expires_in d) silent (polls e)
             (beforePolling silent e d w) of
        None \<Rightarrow> None
      | Some (Threw err, w4) \<Rightarrow> Some (loginCatch silent err w4)
      | Some (Returned tok, w4) \<Rightarrow> Some (Returned (), report silent tok w4))"
proof (cases silent)
  case True
  then show ?thesis
    using assms(1)
    by (simp add: initiateLogin_def beforePolling_def Let_def split: option.splits outcome.splits)
next
  case False
  with assms(2) have o: "openFails e = None" by simp
  let ?w2 = "elapse (of_nat (grantLag e))
               (emit [HttpPost login_endpoint] (say Info ''Initiating login process...'' w))"
  obtain r w3 where an: "announce e d ?w2 = (r, w3)" by (cases "announce e d ?w2")
  with announce_fields(1) [of e d ?w2] o have "r = Returned ()" by simp
  with an False assms(1) show ?thesis
    by (simp add: initiateLogin_def beforePolling_def Let_def split: option.splits outcome.splits)
qed

lemma initiateLogin_grant_fails:
  "grantReply e = Rejected err \<Longrightarrow>
   \<exists>w'. initiateLogin silent e w = Some (Threw err, w') \<and> config w' = config w"
  by (simp add: initiateLogin_def loginCatch_def Let_def)

lemma pollForToken_returns:
  assumes "\<forall>ev\<in>set evs. reply ev \<noteq> Rejected Undefined" and "x * 1000 \<le> elapsed i evs"
  shows "\<exists>b w'. pollForToken dc i x silent evs w = Some (Returned b, w') \<and>
           ((\<forall>ev\<in>set evs. \<not> isSuccess ev) \<longrightarrow> b = False \<and> config w' = config w)"
proof -
  let ?prog = "if silent then None else Some (nextTimer w)"
  let ?w1 = "if silent then w else snd (setInterval w)"
  have "now w + x * 1000 - now ?w1 \<le> elapsed i evs" using assms(2) by simp
  from pollLoop_total_elapsed [OF this, of dc silent 0 ?prog]
  obtain r w' where run: "pollLoop dc silent (now w + x * 1000) evs i 0 ?prog ?w1 = Some (r, w')"
    by auto
  from pollLoop_returns [OF run assms(1)] obtain b where r: "r = Returned b" by blast
  have "b = False \<and> config w' = config w" if "\<forall>ev\<in>set evs. \<not> isSuccess ev"
  proof -
    from pollLoop_no_success [OF run that] r have "b = False" by simp
    moreover from pollLoop_config [OF run] r \<open>b = False\<close> have "config w' = config ?w1" by simp
    ultimately show ?thesis by simp
  qed
  with run r show ?thesis by (simp add: pollForToken_as_loop)
qed

section \<open>Sleeps and requests in order\<close>

lemma schedule_append [simp]: "schedule (xs @ ys) = schedule xs @ schedule ys"
  by (induction xs rule: schedule.induct) simp_all

lemma schedule_detailsOf [simp]: "schedule (detailsOf p r) = []"
  by (simp add: detailsOf_def)

lemma schedule_map_info [simp]:
  "schedule (map (\<lambda>(field, m). Console Info (f field m)) es) = []"
  by (induction es) (simp_all add: split_def)

lemma schedule_statusMessages [simp]: "schedule (statusMessages r) = []"
  by (simp add: statusMessages_def split: option.splits)

lemma schedule_handleApiError [simp]: "schedule (handleApiError err) = []"
  by (cases err rule: handleApiError.cases) simp_all




section \<open>The session store and the guard predicates\<close>

lemma sessionInv_setAuthToken: "sessionInv (setAuthToken t tok u c)"
  by (simp add: sessionInv_def getAuthToken_def getExpiresAt_def setAuthToken_def)

lemma sessionInv_clearAuthToken: "sessionInv (clearAuthToken c)"
  by (simp add: sessionInv_def getAuthToken_def getExpiresAt_def clearAuthToken_def)

lemma sessionInv_setActiveProject: "sessionInv (setActiveProject i n c) = sessionInv c"
  by (simp add: sessionInv_def getAuthToken_def getExpiresAt_def setActiveProject_def)

lemma sessionInv_clearActiveProject: "sessionInv (clearActiveProject c) = sessionInv c"
  by (simp add: sessionInv_def getAuthToken_def getExpiresAt_def clearActiveProject_def)

lemma reachable_sessionInv: "reachable c \<Longrightarrow> sessionInv c"
proof (induction rule: reachable.induct)
  case r_empty
  show ?case by (simp add: sessionInv_def getAuthToken_def getExpiresAt_def emptyConfig_def)
next
  case (r_setAuthToken c t tok u)
  show ?case by (rule sessionInv_setAuthToken)
next
  case (r_clearAuthToken c)
  show ?case by (rule sessionInv_clearAuthToken)
next
  case (r_setActiveProject c i n)
  then show ?case by (simp add: sessionInv_setActiveProject)
next
  case (r_clearActiveProject c)
  then show ?case by (simp add: sessionInv_clearActiveProject)
qed

text \<open>
  For a stored token that is not empty and a stored expiry that is not 0, the two guard
  predicates compare the expiry with the clock: five minutes ahead for
  \<open>isAuthenticated\<close>, one hour ahead for \<open>needsTokenRefresh\<close>. Without an \<open>auth\<close>
  record \<open>isAuthenticated\<close> is false.
\<close>

lemma isAuthenticated_nonzero_expiry:
  "auth c = Some a \<Longrightarrow> token a \<noteq> [] \<Longrightarrow> expiresAt a = Some e \<Longrightarrow> e \<noteq> 0 \<Longrightarrow>
   isAuthenticated t c = (\<not> e - t < 5 * 60 * 1000)"
  by (auto simp: isAuthenticated_def getAuthToken_def getExpiresAt_def truthy_string_def
      truthy_number_def Let_def)

lemma isAuthenticated_no_token: "auth c = None \<Longrightarrow> \<not> isAuthenticated t c"
  by (simp add: isAuthenticated_def getAuthToken_def truthy_string_def)

lemma needsTokenRefresh_nonzero_expiry:
  "auth c = Some a \<Longrightarrow> token a \<noteq> [] \<Longrightarrow> expiresAt a = Some e \<Longrightarrow> e \<noteq> 0 \<Longrightarrow>
   needsTokenRefresh t c = (e - t < 60 * 60 * 1000)"
  by (auto simp: needsTokenRefresh_def getAuthToken_def getExpiresAt_def truthy_string_def
      truthy_number_def Let_def)

section \<open>The claims\<close>

subsection \<open>C1: refresh before an authenticated request\<close>

text \<open>
  C1: before a request that does not go to an \<open>/auth/\<close> endpoint, when
  \<open>needsTokenRefresh\<close> and \<open>isAuthenticated\<close> both hold, the interceptor runs the device
  login, and a failed refresh is printed as a warning while the request goes out with
  the token that is stored. Both runs below are a request to \<open>/projects\<close> with a token
  that expires in 30 minutes. In the first the login succeeds: it is the interactive
  login (it announces itself, copies the code, opens the browser and starts the
  progress timer), not the silent one the comment at the call asks for, because the
  call passes no argument. In the second the grant request fails: the warning is
  printed and the request carries the old token.
\<close>

theorem refresh_runs_the_interactive_login:
  "sentWith (requestInterceptor envRefresh reqProjects worldExpiring)
     = Some (Some ''Bearer new'',
         [Console Info ''Your session is about to expire. Refreshing authentication...'',
          Console Info ''Initiating login process...'',
          HttpPost ''/auth/cli-login-initiate'',
          Console Heading ''Authentication Required'',
          Console Info ''To authenticate, please follow these steps:'',
          Console Info ''1. Open this URL in your browser: https://todofordevs.com/cli-auth'',
          ClipboardWrite ''ABCD-1234'',
          Console Info ''2. Enter this code: ABCD-1234 (copied to clipboard)'',
          OpenBrowser ''https://todofordevs.com/cli-auth'',
          Console Info ''Waiting for authentication to complete...'',
          SetInterval 0,
          SetTimeout 5000,
          HttpGet ''/auth/cli-token?code=dc'',
          ClearInterval 0,
          Stdout blankLine,
          Console Success ''Authentication successful!'']) \<and>
   sentWith (requestInterceptor envGrantFails reqProjects worldExpiring)
     = Some (Some ''Bearer old'',
         [Console Info ''Your session is about to expire. Refreshing authentication...'',
          Console Info ''Initiating login process...'',
          HttpPost ''/auth/cli-login-initiate'',
          Console Failure ''Network Error: No response received from server'',
          Console Info ''Please check your internet connection.'',
          Console Info ''Current API URL: https://localhost:3000/api'',
          Console Failure ''Failed to initiate login process.'',
          ConsoleError networkError,
          Console Warning ''Failed to refresh authentication. Please login again.''])"
  by (simp add: sentWith_def requestInterceptor_def initiateLogin_def announce_def loginCatch_def
      pollForToken_as_loop pollLoop.simps envRefresh_def envSuccess_def envGrantFails_def
      networkError_def getApiUrl_def reqProjects_def worldExpiring_def
      cfgExpiring_def grantUsual_def run_defs Let_def split_def
      getAuthToken_def getExpiresAt_def setAuthToken_def report_def getAuthUser_def
      needsTokenRefresh_def isAuthenticated_def truthy_number_def truncateStr_def
      login_endpoint_def token_endpoint_def)

subsection \<open>C2: what \<open>initiateLogin\<close> reports to its caller\<close>

text \<open>
  C2, as stated, fails: \<open>initiateLogin\<close> returns no boolean. A run that times out (no
  token stored) and a run that succeeds (token \<open>T\<close> stored) both end with the same
  value, the \<open>void\<close> of \<open>Promise<void>\<close>.
\<close>

theorem initiateLogin_returns_no_value_counterexample:
  "summary (initiateLogin False envTimeout world0) = Some (Returned (), None, [15000]) \<and>
   summary (initiateLogin False envSuccess world0) = Some (Returned (), Some ''T'', [5000, 7500])"
  by (simp add: summary_def initiateLogin_def announce_def pollForToken_as_loop pollLoop.simps
      envTimeout_def envSuccess_def grantShort_def grantUsual_def run_defs Let_def split_def
      afterLoop_def getAuthToken_def setAuthToken_def emptyConfig_def report_def
      getAuthUser_def)

text \<open>
  C2, amended: \<open>initiateLogin\<close> returns no value. When the grant request succeeds, the
  events cover the grant window, no poll rejects with \<open>undefined\<close>, and the call is
  silent or the browser opens, \<open>pollForToken\<close> returns a boolean and \<open>initiateLogin\<close>
  returns normally; if no poll brings a token that boolean is false, the store is
  unchanged and an interactive run ends with the line
  \<open>Authentication failed or timed out.\<close> In silent mode a failed grant request is
  rethrown to the caller, with the store unchanged.
\<close>

theorem initiateLogin_outcomes:
  assumes "\<forall>ev\<in>set (polls e). reply ev \<noteq> Rejected Undefined"
    and "silent \<or> openFails e = None"
  shows "(grantReply e = Resolved d \<and> expires_in d * 1000 \<le> elapsed (interval d) (polls e) \<longrightarrow>
            (\<exists>b w1 w'.
               pollForToken (device_code d) (interval d) (expires_in d) silent (polls e)
                 (beforePolling silent e d w) = Some (Returned b, w1) \<and>
               initiateLogin silent e w = Some (Returned (), w') \<and>
               ((\<forall>ev\<in>set (polls e). \<not> isSuccess ev) \<longrightarrow>
                  b = False \<and> config w' = config w \<and>
                  (\<not> silent \<longrightarrow>
                     last (trace w') = Console Failure ''Authentication failed or timed out.'')))) \<and>
         (grantReply e = Rejected err \<and> silent \<longrightarrow>
            (\<exists>w'. initiateLogin silent e w = Some (Threw err, w') \<and> config w' = config w))"
proof (intro conjI impI)
  assume g: "grantReply e = Resolved d \<and> expires_in d * 1000 \<le> elapsed (interval d) (polls e)"
  from pollForToken_returns [OF assms(1), of "expires_in d" "interval d" "device_code d" silent
      "beforePolling silent e d w"] g
  obtain b w1 where
    run: "pollForToken (device_code d) (interval d) (expires_in d) silent (polls e)
            (beforePolling silent e d w) = Some (Returned b, w1)"
    and none: "(\<forall>ev\<in>set (polls e). \<not> isSuccess ev) \<longrightarrow> b = False \<and> config w1 = config w"
    by auto
  have lg: "initiateLogin silent e w = Some (Returned (), report silent b w1)"
    using g by (simp add: initiateLogin_polls [OF _ assms(2)] run)
  show "\<exists>b w1 w'.
          pollForToken (device_code d) (interval d) (expires_in d) silent (polls e)
            (beforePolling silent e d w) = Some (Returned b, w1) \<and>
          initiateLogin silent e w = Some (Returned (), w') \<and>
          ((\<forall>ev\<in>set (polls e). \<not> isSuccess ev) \<longrightarrow>
             b = False \<and> config w' = config w \<and>
             (\<not> silent \<longrightarrow>
                last (trace w') = Console Failure ''Authentication failed or timed out.''))"
    using run lg none
    by (intro exI [of _ b] exI [of _ w1] exI [of _ "report silent b w1"])
       (auto simp: report_failure)
next
  assume "grantReply e = Rejected err \<and> silent"
  then show "\<exists>w'. initiateLogin silent e w = Some (Threw err, w') \<and> config w' = config w"
    using initiateLogin_grant_fails [of e err silent w] by simp
qed

theorem initiateLogin_outcomes_witness:
  "(\<exists>w'. initiateLogin False envTimeout world0 = Some (Returned (), w') \<and>
          config w' = emptyConfig \<and>
          last (trace w') = Console Failure ''Authentication failed or timed out.'') \<and>
   (\<exists>w'. initiateLogin True envGrantFails world0 = Some (Threw networkError, w') \<and>
          config w' = emptyConfig)"
proof -
  have a: "\<forall>ev\<in>set (polls envTimeout). reply ev \<noteq> Rejected Undefined"
    by (simp add: envTimeout_def run_defs)
  have b: "False \<or> openFails envTimeout = None" by (simp add: envTimeout_def envSuccess_def)
  have c: "grantReply envTimeout = Resolved grantShort \<and>
      expires_in grantShort * 1000 \<le> elapsed (interval grantShort) (polls envTimeout)"
    by (simp add: envTimeout_def grantShort_def run_defs)
  have d: "\<forall>ev\<in>set (polls envTimeout). \<not> isSuccess ev" by (simp add: envTimeout_def run_defs)
  have a': "\<forall>ev\<in>set (polls envGrantFails). reply ev \<noteq> Rejected Undefined"
    by (simp add: envGrantFails_def)
  have b': "True \<or> openFails envGrantFails = None" by simp
  have c': "grantReply envGrantFails = Rejected networkError \<and> True"
    by (simp add: envGrantFails_def)
  from initiateLogin_outcomes [OF a b, of grantShort world0 networkError] c d
    initiateLogin_outcomes [OF a' b', of grantShort world0 networkError] c'
  show ?thesis by (auto simp: world0_def)
qed

subsection \<open>C3: backoff while the authorization is pending\<close>




subsection \<open>C4: an interval longer than the grant window\<close>

text \<open>
  C4: with \<open>expiresIn = 10\<close>, \<open>interval = 15\<close> and only pending answers, the routine
  sleeps once, sends the one request that is answered pending after the window has
  closed, and times out: \<open>pollForToken\<close> returns false, \<open>initiateLogin\<close> returns, and the
  store is what it was before.
\<close>

theorem login_interval_beyond_window_times_out:
  assumes "grantReply e = Resolved d" and "interval d = 15" and "expires_in d = 10"
    and "polls e \<noteq> []" and "\<forall>ev\<in>set (polls e). isPendingEv ev"
    and "silent \<or> openFails e = None"
  shows "\<exists>w1 w'.
           pollForToken (device_code d) (interval d) (expires_in d) silent (polls e) w
             = Some (Returned False, w1) \<and>
           config w1 = config w \<and>
           delays (trace w1) = delays (trace w) @ [15 * 1000] \<and>
           requests (trace w1) = requests (trace w) @ [token_endpoint (device_code d)] \<and>
           initiateLogin silent e w = Some (Returned (), w') \<and>
           config w' = config w \<and>
           delays (trace w') = delays (trace w) @ [15 * 1000] \<and>
           requests (trace w') =
             requests (trace w) @ [login_endpoint, token_endpoint (device_code d)]"
proof -
  from pollForToken_window_too_short [OF assms(4,5), of "device_code d" silent w]
  obtain w1 where p1:
    "pollForToken (device_code d) 15 10 silent (polls e) w = Some (Returned False, w1)"
    "config w1 = config w"
    "delays (trace w1) = delays (trace w) @ [15 * 1000]"
    "requests (trace w1) = requests (trace w) @ [token_endpoint (device_code d)]"
    by blast
  from pollForToken_window_too_short [OF assms(4,5), of "device_code d" silent
      "beforePolling silent e d w"]
  obtain w4 where p4:
    "pollForToken (device_code d) 15 10 silent (polls e) (beforePolling silent e d w)
       = Some (Returned False, w4)"
    "config w4 = config w"
    "delays (trace w4) = delays (trace w) @ [15 * 1000]"
    "requests (trace w4) = requests (trace w) @ [login_endpoint, token_endpoint (device_code d)]"
    by auto
  have "initiateLogin silent e w = Some (Returned (), report silent False w4)"
    by (simp add: initiateLogin_polls [OF assms(1) assms(6)] assms(2,3) p4(1))
  with p1 p4 show ?thesis by (simp add: assms(2,3))
qed

theorem login_interval_beyond_window_times_out_witness:
  "\<exists>w1 w'.
     pollForToken ''dc'' 15 10 False [pendingEvent] world0 = Some (Returned False, w1) \<and>
     config w1 = emptyConfig \<and> delays (trace w1) = [15000] \<and>
     requests (trace w1) = [''/auth/cli-token?code=dc''] \<and>
     initiateLogin False envTimeout world0 = Some (Returned (), w') \<and>
     config w' = emptyConfig \<and> delays (trace w') = [15000] \<and>
     requests (trace w') = [''/auth/cli-login-initiate'', ''/auth/cli-token?code=dc'']"
proof -
  have a: "grantReply envTimeout = Resolved grantShort" by (simp add: envTimeout_def)
  have b: "interval grantShort = 15" "expires_in grantShort = 10" by (simp_all add: grantShort_def)
  have c: "polls envTimeout \<noteq> []" by (simp add: envTimeout_def)
  have d: "\<forall>ev\<in>set (polls envTimeout). isPendingEv ev" by (simp add: envTimeout_def run_defs)
  have f: "False \<or> openFails envTimeout = None" by (simp add: envTimeout_def envSuccess_def)
  from login_interval_beyond_window_times_out [OF a b c d f, of world0]
  show ?thesis
    by (simp add: envTimeout_def grantShort_def grantUsual_def world0_def token_endpoint_def
        login_endpoint_def)
qed

subsection \<open>C5: \<open>isAuthenticated\<close>\<close>


subsection \<open>C6: \<open>needsTokenRefresh\<close>\<close>


subsection \<open>C7: an error that is not the pending answer\<close>

text \<open>
  C7: when every reply before the first token keeps the loop going (a pending answer,
  any other error object, or a body without token) and the time these replies take is
  shorter than the grant window, the session is stored with the token, the user and
  \<open>expiresAt\<close> 24 hours after the moment of storing. The sleeps are those of \<open>waits\<close>,
  where only a pending answer changes the interval, and an interactive run prints one
  warning, with the attempt number, for each error that is not the pending answer; a
  silent run prints none.
\<close>

theorem transient_error_then_success_stores_session:
  assumes "\<forall>ev\<in>set pre. keepsPolling ev"
    and "elapsed i pre < x * 1000"
    and "tok \<noteq> []"
    and "ok = \<lparr>lag = l, reply = Resolved (Some \<lparr>resp_token = tok, resp_user = u\<rparr>)\<rparr>"
  shows "\<exists>w'. pollForToken dc i x silent (pre @ ok # rest) w = Some (Returned True, w') \<and>
           auth (config w') =
             Some \<lparr>token = tok, expiresAt = Some (now w' + 24 * 60 * 60 * 1000), user = u\<rparr> \<and>
           now w' = now w + elapsed i (pre @ [ok]) \<and>
           delays (trace w') = delays (trace w) @ waits i (pre @ [ok]) \<and>
           warnings (trace w') =
             warnings (trace w) @ (if silent then [] else expectedWarnings 0 pre)"
proof -
  let ?prog = "if silent then None else Some (nextTimer w)"
  let ?w1 = "if silent then w else snd (setInterval w)"
  have "now ?w1 + elapsed i pre < now w + x * 1000" using assms(2) by simp
  from pollLoop_until_success [OF assms(1) this assms(3) assms(4), of dc silent rest 0 ?prog]
  obtain w' where
    "pollLoop dc silent (now w + x * 1000) (pre @ ok # rest) i 0 ?prog ?w1 = Some (Returned True, w')"
    "config w' = setAuthToken (now w') tok u (config ?w1)"
    "now w' = now ?w1 + elapsed i (pre @ [ok])"
    "delays (trace w') = delays (trace ?w1) @ waits i (pre @ [ok])"
    "warnings (trace w') = warnings (trace ?w1) @ (if silent then [] else expectedWarnings 0 pre)"
    by blast
  then show ?thesis
    by (intro exI [of _ w']) (simp add: pollForToken_as_loop setAuthToken_def)
qed

theorem transient_error_then_success_stores_session_witness:
  "\<exists>w'. pollForToken ''dc'' 5 900 False [pendingEvent, errorEvent, tokenEvent ''T''] world0
           = Some (Returned True, w') \<and>
         getAuthToken (config w') = Some ''T'' \<and>
         delays (trace w') = [5000, 7500, 7500] \<and>
         warnings (trace w') =
           [''Error polling for token (attempt 2): Request failed with status code 500'']"
proof -
  have a: "\<forall>ev\<in>set [pendingEvent, errorEvent]. keepsPolling ev" by (simp add: run_defs)
  have b: "elapsed 5 [pendingEvent, errorEvent] < 900 * 1000" by (simp add: run_defs)
  have c: "''T'' \<noteq> []" by simp
  have d: "tokenEvent ''T''
      = \<lparr>lag = 0, reply = Resolved (Some \<lparr>resp_token = ''T'', resp_user = None\<rparr>)\<rparr>"
    by (simp add: tokenEvent_def)
  from transient_error_then_success_stores_session [OF a b c d, of "''dc''" False "[]" world0]
  show ?thesis
    by (auto simp: run_defs getAuthToken_def pollWarning_def showNat.simps)
qed

subsection \<open>C8: the progress timer\<close>

text \<open>
  C8: when the timers scheduled before the call have handles the allocator has already
  given out, every result of \<open>pollForToken\<close>, returned or thrown, leaves exactly those
  timers scheduled: the progress timer an interactive call starts (and restarts after
  an error) is cancelled on the way out. With an event for every millisecond of the
  grant window the call does come to a result.
\<close>

theorem progress_timer_cancelled_on_every_exit:
  assumes "\<forall>t\<in>set (timers w). t < nextTimer w"
  shows "(pollForToken dc i x silent evs w = Some (r, w') \<longrightarrow>
           timers w' = timers w \<and>
           (if silent then nextTimer w \<le> nextTimer w' else nextTimer w < nextTimer w')) \<and>
         (x * 1000 \<le> of_nat (length evs) \<longrightarrow> pollForToken dc i x silent evs w \<noteq> None)"
proof -
  let ?prog = "if silent then None else Some (nextTimer w)"
  let ?w1 = "if silent then w else snd (setInterval w)"
  have a: "timers w' = timers w \<and> nextTimer ?w1 \<le> nextTimer w'"
    if "pollForToken dc i x silent evs w = Some (r, w')"
    using that pollLoop_timers [OF _ progressOK_start [OF assms]]
    by (simp only: pollForToken_as_loop)
  have b: "pollForToken dc i x silent evs w \<noteq> None" if "x * 1000 \<le> of_nat (length evs)"
  proof -
    have "now w + x * 1000 - now ?w1 \<le> of_nat (length evs)" using that by simp
    from pollLoop_total [OF this] show ?thesis by (auto simp only: pollForToken_as_loop)
  qed
  from a b show ?thesis by (cases silent) auto
qed

theorem progress_timer_cancelled_on_every_exit_witness:
  "\<exists>m w'. pollForToken ''dc'' 5 900 False [pendingEvent, errorEvent, undefinedEvent] world0
             = Some (Threw (TypeError m), w') \<and> timers w' = [] \<and> 0 < nextTimer w'"
proof -
  have wf: "\<forall>t\<in>set (timers world0). t < nextTimer world0" by (simp add: world0_def)
  have "\<exists>m w'. pollForToken ''dc'' 5 900 False [pendingEvent, errorEvent, undefinedEvent] world0
          = Some (Threw (TypeError m), w')"
    by (simp add: pollForToken_as_loop pollLoop.simps pendingEvent_def errorEvent_def
        undefinedEvent_def world0_def pendingError_def serverError_def Let_def split_def
        timerDelay_def backoff_def backoffFactor_def maxInterval_def)
  then obtain m w' where
    run: "pollForToken ''dc'' 5 900 False [pendingEvent, errorEvent, undefinedEvent] world0
            = Some (Threw (TypeError m), w')"
    by auto
  from progress_timer_cancelled_on_every_exit [OF wf, of "''dc''" 5 900 False
      "[pendingEvent, errorEvent, undefinedEvent]" "Threw (TypeError m)" w'] run
  show ?thesis by (auto simp: world0_def)
qed

subsection \<open>C9: token and expiry are stored together\<close>

text \<open>
  C9: every operation of the store keeps token and expiry together. \<open>setAuthToken\<close>
  writes the token and \<open>expiresAt = now + 24 h\<close> in one record, \<open>clearAuthToken\<close>
  removes both, the project operations leave them alone, and so no state the
  operations reach from the empty store has one without the other.
\<close>

theorem session_token_and_expiry_together:
  "sessionInv (setAuthToken t tok u c) \<and>
   getAuthToken (setAuthToken t tok u c) = Some tok \<and>
   getExpiresAt (setAuthToken t tok u c) = Some (t + 24 * 60 * 60 * 1000) \<and>
   sessionInv (clearAuthToken c) \<and>
   getAuthToken (clearAuthToken c) = None \<and>
   getExpiresAt (clearAuthToken c) = None \<and>
   (sessionInv c \<longrightarrow> sessionInv (setActiveProject i n c) \<and> sessionInv (clearActiveProject c)) \<and>
   (reachable r \<longrightarrow> sessionInv r)"
  by (simp add: sessionInv_setAuthToken sessionInv_clearAuthToken sessionInv_setActiveProject
      sessionInv_clearActiveProject reachable_sessionInv)
    (simp add: getAuthToken_def getExpiresAt_def setAuthToken_def clearAuthToken_def)

theorem session_token_and_expiry_together_witness:
  "reachable (clearActiveProject cfgLoggedIn) \<and> sessionInv (clearActiveProject cfgLoggedIn) \<and>
   sessionInv emptyConfig \<and> sessionInv (setActiveProject ''p1'' ''Project'' emptyConfig) \<and>
   getExpiresAt (setAuthToken 1700000000000 ''tok'' None emptyConfig) = Some 1700086400000"
proof -
  have r: "reachable (clearActiveProject cfgLoggedIn)"
    unfolding cfgLoggedIn_def by (intro reachable.intros)
  have e: "sessionInv emptyConfig"
    by (simp add: sessionInv_def getAuthToken_def getExpiresAt_def emptyConfig_def)
  show ?thesis
    using r e
      session_token_and_expiry_together
        [of 1700000000000 "''tok''" None emptyConfig "''p1''" "''Project''"
          "clearActiveProject cfgLoggedIn"]
    by simp
qed

subsection \<open>C10: what \<open>logout\<close> leaves alone\<close>

text \<open>
  C10: \<open>logout\<close> deletes the \<open>auth\<close> record and nothing else: the active project and
  whatever further keys the store holds are as before.
\<close>

theorem logout_keeps_other_keys:
  "activeProject (clearAuthToken c) = activeProject c \<and>
   CliConfig.more (clearAuthToken c) = CliConfig.more c \<and>
   auth (clearAuthToken c) = None \<and>
   config (logout w) = clearAuthToken (config w) \<and>
   activeProject (config (logout w)) = activeProject (config w) \<and>
   getActiveProject (config (logout w)) = getActiveProject (config w) \<and>
   getAuthToken (config (logout w)) = None"
  by (simp add: clearAuthToken_def logout_def say_def emit_def getActiveProject_def
      getAuthToken_def)

end
